theory Spec2Isabelle
  imports Main "HOL-Library.Word"
begin

section \<open>Values shared by the cache utilities and the synchronizer\<close>

text \<open>
  The exceptions the two modules can raise. \<open>DecodeError\<close> is \<open>sudio.types.DecodeError\<close>;
  \<open>UnsupportedFormat\<close> stands for whatever \<open>Audio.get_sample_size\<close> raises on a tag it
  does not know; the others are the Python built-ins of the same name.
\<close>

datatype error =
    ValueError | TypeError | OSError | OverflowError | ZeroDivisionError | IndexError
  | DecodeError | UnsupportedFormat

type_synonym byte = "8 word"

text \<open>An open \<open>io.BufferedRandom\<close>: the name it was opened under and its position.\<close>

record handle =
  h_name :: string
  h_pos :: nat

text \<open>What \<open>record['o']\<close> and the \<open>data\<close> argument hold: \<open>bytes\<close> or an open handle.\<close>

datatype payload = Bytes "byte list" | Stream handle

text \<open>
  The file system is a map from paths to contents. What other processes do to it is the
  environment: \<open>rename_busy p\<close> says that \<open>os.rename(p, p)\<close> raises \<open>OSError\<close> although
  \<open>p\<close> exists, \<open>open_busy p\<close> that \<open>open(p, ...)\<close> raises \<open>OSError\<close>. Both are fixed
  for the length of one call. Flushing has no effect on this model, which has no buffers,
  and I/O errors other than those of \<open>open\<close> and \<open>os.rename\<close> are not part of it.
\<close>

type_synonym files = "string \<Rightarrow> byte list option"

record os_env =
  rename_busy :: "string \<Rightarrow> bool"
  open_busy :: "string \<Rightarrow> bool"

datatype file_mode = WB_plus | RB_plus

datatype whence = SEEK_SET | SEEK_CUR | SEEK_END

definition content :: "files \<Rightarrow> handle \<Rightarrow> byte list" where
  "content fs f = (case fs (h_name f) of Some bs \<Rightarrow> bs | None \<Rightarrow> [])"

definition open_file :: "os_env \<Rightarrow> files \<Rightarrow> string \<Rightarrow> file_mode \<Rightarrow> error + (handle \<times> files)" where
  "open_file os fs p m =
     (case m of
        WB_plus \<Rightarrow>
          if open_busy os p then Inl OSError
          else Inr (\<lparr>h_name = p, h_pos = 0\<rparr>, fs(p \<mapsto> []))
      | RB_plus \<Rightarrow>
          if fs p = None \<or> open_busy os p then Inl OSError
          else Inr (\<lparr>h_name = p, h_pos = 0\<rparr>, fs))"

definition os_rename_self :: "os_env \<Rightarrow> files \<Rightarrow> string \<Rightarrow> error + unit" where
  "os_rename_self os fs p = (if fs p = None \<or> rename_busy os p then Inl OSError else Inr ())"

definition seek :: "files \<Rightarrow> handle \<Rightarrow> int \<times> whence \<Rightarrow> error + handle" where
  "seek fs f sk =
     (case sk of (off, w) \<Rightarrow>
        let base = (case w of SEEK_SET \<Rightarrow> 0
                            | SEEK_CUR \<Rightarrow> int (h_pos f)
                            | SEEK_END \<Rightarrow> int (length (content fs f)));
            p = base + off
        in if p < 0 then Inl OSError else Inr (f\<lparr>h_pos := nat p\<rparr>))"

definition write_at :: "nat \<Rightarrow> byte list \<Rightarrow> byte list \<Rightarrow> byte list" where
  "write_at p bs c = take p c @ replicate (p - length c) 0 @ bs @ drop (p + length bs) c"

definition file_write :: "files \<Rightarrow> handle \<Rightarrow> byte list \<Rightarrow> handle \<times> files" where
  "file_write fs f bs =
     (f\<lparr>h_pos := h_pos f + length bs\<rparr>, fs(h_name f \<mapsto> write_at (h_pos f) bs (content fs f)))"

definition file_truncate :: "files \<Rightarrow> handle \<Rightarrow> files" where
  "file_truncate fs f =
     fs(h_name f \<mapsto> take (h_pos f) (content fs f) @ replicate (h_pos f - length (content fs f)) 0)"

definition file_read :: "files \<Rightarrow> handle \<Rightarrow> nat \<Rightarrow> byte list \<times> handle" where
  "file_read fs f n =
     (let bs = take n (drop (h_pos f) (content fs f)) in (bs, f\<lparr>h_pos := h_pos f + length bs\<rparr>))"

definition file_read_all :: "files \<Rightarrow> handle \<Rightarrow> byte list" where
  "file_read_all fs f = drop (h_pos f) (content fs f)"

text \<open>
  The loop \<open>buffer = src.read(chunk); while buffer: size += dst.write(buffer); ...\<close> over
  what is left of the source; \<open>acc\<close> is what has been written so far.
\<close>

function copy_chunks :: "nat \<Rightarrow> byte list \<Rightarrow> byte list \<Rightarrow> byte list" where
  "copy_chunks chunk rest acc =
     (let buffer = take chunk rest
      in if buffer = [] then acc else copy_chunks chunk (drop chunk rest) (acc @ buffer))"
  by pat_completeness auto
termination
  by (relation "measure (\<lambda>(chunk, rest, acc). length rest)") auto

declare copy_chunks.simps [simp del]

section \<open>The cache header codec\<close>

text \<open>
  \<open>np.asarray(head, dtype='u8')\<close> written to a file and \<open>np.frombuffer(b, dtype='u8').tolist()\<close>
  on a little-endian machine: each value is eight bytes, least significant first. A Python
  int outside \<open>[0, 2^64)\<close> raises \<open>OverflowError\<close>.
\<close>

fun le_bytes :: "nat \<Rightarrow> nat \<Rightarrow> byte list" where
  "le_bytes 0 n = []"
| "le_bytes (Suc k) n = of_nat (n mod 256) # le_bytes k (n div 256)"

fun le_value :: "byte list \<Rightarrow> nat" where
  "le_value [] = 0"
| "le_value (b # bs) = unat b + 256 * le_value bs"

function chunks :: "nat \<Rightarrow> 'a list \<Rightarrow> 'a list list" where
  "chunks n xs = (if n = 0 \<or> xs = [] then [] else take n xs # chunks n (drop n xs))"
  by pat_completeness auto
termination
  by (relation "measure (\<lambda>(n, xs). length xs)") auto

declare chunks.simps [simp del]

definition np_asarray_u8 :: "int list \<Rightarrow> error + nat list" where
  "np_asarray_u8 vs =
     (if \<forall>v \<in> set vs. 0 \<le> v \<and> v < 2 ^ 64 then Inr (map nat vs) else Inl OverflowError)"

definition u8_tobytes :: "nat list \<Rightarrow> byte list" where
  "u8_tobytes ns = concat (map (le_bytes 8) ns)"

definition np_frombuffer_u8 :: "byte list \<Rightarrow> error + int list" where
  "np_frombuffer_u8 b =
     (if length b mod 8 \<noteq> 0 then Inl ValueError
      else Inr (map (\<lambda>c. int (le_value c)) (chunks 8 b)))"

text \<open>\<open>csize, cframe_rate, csample_format, cnchannels = ...\<close>: exactly four values.\<close>

definition unpack4 :: "int list \<Rightarrow> error + (int \<times> int \<times> int \<times> int)" where
  "unpack4 vs = (case vs of [a, b, c, d] \<Rightarrow> Inr (a, b, c, d) | _ \<Rightarrow> Inl ValueError)"

definition encode_header :: "int list \<Rightarrow> error + byte list" where
  "encode_header h = (case np_asarray_u8 h of Inl e \<Rightarrow> Inl e | Inr ns \<Rightarrow> Inr (u8_tobytes ns))"

definition decode_header :: "byte list \<Rightarrow> error + (int \<times> int \<times> int \<times> int)" where
  "decode_header b = (case np_frombuffer_u8 b of Inl e \<Rightarrow> Inl e | Inr vs \<Rightarrow> unpack4 vs)"

section \<open>write_to_cached_file\<close>

text \<open>
  The keyword arguments, \<open>head_dtype\<close> at its default \<open>'u8'\<close>. \<open>file_name = None\<close> and the
  empty string are both false in \<open>elif file_name\<close>; an open handle is always true.
\<close>

record wargs =
  head :: "int list"
  data :: "payload option"
  file_name :: "string option"
  file_mode :: file_mode
  buffered_random :: "handle option"
  pre_truncate :: bool
  pre_seek :: "(int \<times> whence) option"
  after_seek :: "(int \<times> whence) option"
  pre_flush :: bool
  after_flush :: bool
  size_on_output :: bool
  data_chunk :: nat

definition wargs_default :: wargs where
  "wargs_default =
     \<lparr>head = [], data = None, file_name = None, file_mode = WB_plus, buffered_random = None,
      pre_truncate = False, pre_seek = None, after_seek = None, pre_flush = False,
      after_flush = False, size_on_output = False, data_chunk = 1000000\<rparr>"

definition select_target :: "os_env \<Rightarrow> wargs \<Rightarrow> files \<Rightarrow> error + (handle \<times> files)" where
  "select_target os a fs =
     (case buffered_random a of
        Some h \<Rightarrow> Inr (h, fs)
      | None \<Rightarrow>
          (case file_name a of
             Some n \<Rightarrow> if n \<noteq> [] then open_file os fs n (file_mode a) else Inl ValueError
           | None \<Rightarrow> Inl ValueError))"

definition opt_seek :: "files \<Rightarrow> handle \<Rightarrow> (int \<times> whence) option \<Rightarrow> error + handle" where
  "opt_seek fs f sk = (case sk of None \<Rightarrow> Inr f | Some s \<Rightarrow> seek fs f s)"

definition write_head :: "files \<Rightarrow> handle \<Rightarrow> int list \<Rightarrow> error + (handle \<times> files \<times> nat)" where
  "write_head fs f h =
     (if h = [] then Inr (f, fs, 0)
      else case encode_header h of
             Inl e \<Rightarrow> Inl e
           | Inr bs \<Rightarrow> (case file_write fs f bs of (f', fs') \<Rightarrow> Inr (f', fs', length bs)))"

text \<open>
  Lines 68 to 75. The target's writes are buffered: a stream is read from the files as they
  are on disk, \<open>disk\<close>, where the header this call has just written is not yet. That
  matters only when the stream is a handle on the file being written, and is exact there as
  long as what is written stays within the target's buffer.
\<close>

definition write_data ::
    "files \<Rightarrow> files \<Rightarrow> handle \<Rightarrow> payload option \<Rightarrow> nat \<Rightarrow> handle \<times> files \<times> nat" where
  "write_data disk fs f d chunk =
     (case d of
        None \<Rightarrow> (f, fs, 0)
      | Some (Bytes bs) \<Rightarrow>
          if bs = [] then (f, fs, 0)
          else (case file_write fs f bs of (f', fs') \<Rightarrow> (f', fs', length bs))
      | Some (Stream src) \<Rightarrow>
          (let bs = copy_chunks chunk (file_read_all disk src) []
           in case file_write fs f bs of (f', fs') \<Rightarrow> (f', fs', length bs)))"

definition write_to_cached_file ::
    "os_env \<Rightarrow> wargs \<Rightarrow> files \<Rightarrow> error + (handle \<times> nat option \<times> files)" where
  "write_to_cached_file os a fs =
     (case select_target os a fs of
        Inl e \<Rightarrow> Inl e
      | Inr (file0, fs0) \<Rightarrow>
     (case opt_seek fs0 file0 (pre_seek a) of
        Inl e \<Rightarrow> Inl e
      | Inr file1 \<Rightarrow>
     (let fs1 = (if pre_truncate a then file_truncate fs0 file1 else fs0)
      in case write_head fs1 file1 (head a) of
        Inl e \<Rightarrow> Inl e
      | Inr (file2, fs2, n_head) \<Rightarrow>
     (case write_data fs1 fs2 file2 (data a) (data_chunk a) of (file3, fs3, n_data) \<Rightarrow>
     (case opt_seek fs3 file3 (after_seek a) of
        Inl e \<Rightarrow> Inl e
      | Inr file4 \<Rightarrow>
          Inr (file4, if size_on_output a then Some (n_head + n_data) else None, fs3))))))"

text \<open>What a payload contributes to the file: the bytes, or what is left of the stream.\<close>

definition payload_bytes :: "files \<Rightarrow> payload \<Rightarrow> byte list" where
  "payload_bytes fs p = (case p of Bytes d \<Rightarrow> d | Stream h \<Rightarrow> file_read_all fs h)"

section \<open>synchronize_audio\<close>

text \<open>
  A numpy dtype string \<open>'<i{n}'\<close> or \<open>'<f{n}'\<close>, and an array as numpy holds it: the
  dtype and the bytes of each element, in one or two dimensions. A sample is never
  interpreted as a number here; the conversions that would need to (to and from floating
  point, and resampling) are parameters.
\<close>

datatype kind = IntKind | FloatKind

datatype dtype = Dtype kind nat

type_synonym elem = "byte list"

datatype 'a ndarray = A1 "'a list" | A2 "'a list list"

text \<open>
  What the synchronizer takes from outside this repository's \<open>src/\<close>:
  \<open>Audio.get_sample_size\<close> (\<open>None\<close> when it raises on the tag),
  \<open>SampleFormat.formatFloat32.value\<close>, \<open>samplerate.resample(data, target / source,
  'sinc_fastest')\<close>, whose result is a float32 array, and numpy's \<open>astype\<close> between two
  dtypes of which one is floating point.
\<close>

record audio_env =
  get_sample_size :: "int option \<Rightarrow> nat option"
  formatFloat32 :: int
  resample :: "dtype \<Rightarrow> elem list \<Rightarrow> int \<Rightarrow> int \<Rightarrow> elem list"
  convert :: "dtype \<Rightarrow> dtype \<Rightarrow> elem \<Rightarrow> elem"

text \<open>
  The record, a dict or a \<open>pd.Series\<close>. \<open>duration\<close> keeps the two operands of the float
  quotient \<open>size / (frameRate * nchannels * sample_size)\<close>.
\<close>

record audio_record =
  rec_o :: payload
  rec_size :: int
  frameRate :: int
  nchannels :: int
  sampleFormat :: "int option"
  duration :: "(int \<times> int) option"
  is_series :: bool
  rec_name :: string

definition itemsize :: "dtype \<Rightarrow> nat" where
  "itemsize dt = (case dt of Dtype k n \<Rightarrow> n)"

definition dtype_ok :: "dtype \<Rightarrow> bool" where
  "dtype_ok dt =
     (case dt of Dtype IntKind n \<Rightarrow> n \<in> {1, 2, 4, 8} | Dtype FloatKind n \<Rightarrow> n \<in> {2, 4, 8})"

definition sample_form :: "audio_env \<Rightarrow> int option \<Rightarrow> error + dtype" where
  "sample_form A fmt =
     (case get_sample_size A fmt of
        None \<Rightarrow> Inl UnsupportedFormat
      | Some n \<Rightarrow> Inr (Dtype (if fmt = Some (formatFloat32 A) then FloatKind else IntKind) n))"

definition np_frombuffer :: "payload \<Rightarrow> dtype \<Rightarrow> error + elem list" where
  "np_frombuffer b dt =
     (case b of
        Stream f \<Rightarrow> Inl TypeError
      | Bytes bs \<Rightarrow>
          if \<not> dtype_ok dt then Inl TypeError
          else if length bs mod itemsize dt \<noteq> 0 then Inl ValueError
          else Inr (chunks (itemsize dt) bs))"

text \<open>\<open>xs[::k]\<close> for \<open>k > 0\<close>, and Python's \<open>xs[i::step]\<close> for \<open>i \<ge> 0\<close> and \<open>step \<noteq> 0\<close>.\<close>

fun every_nth :: "nat \<Rightarrow> 'a list \<Rightarrow> 'a list" where
  "every_nth k [] = []"
| "every_nth k (x # xs) = x # every_nth k (drop (k - 1) xs)"

definition py_slice_from :: "'a list \<Rightarrow> nat \<Rightarrow> int \<Rightarrow> 'a list" where
  "py_slice_from xs i step =
     (if step > 0 then every_nth (nat step) (drop i xs)
      else every_nth (nat (- step)) (rev (take (Suc i) xs)))"

text \<open>
  Line 60, \<open>[[data[i::rec['nchannels']]] for i in range(nchannels)]\<close>: the stride is the
  record's channel count, the number of streams the target's. A zero step raises as soon as
  one slice is taken.
\<close>

definition deinterleave :: "'a list \<Rightarrow> int \<Rightarrow> int \<Rightarrow> error + 'a list list" where
  "deinterleave xs src tgt =
     (if tgt \<le> 0 then Inr []
      else if src = 0 then Inl ValueError
      else Inr (map (\<lambda>i. py_slice_from xs i src) [0..<nat tgt]))"

text \<open>
  Line 61, \<open>np.append(*data, axis=0)\<close>: \<open>np.append\<close> takes two arrays, so any other number
  of streams is a \<open>TypeError\<close>; two streams of different lengths are a \<open>ValueError\<close>.
\<close>

definition np_append_star :: "'a list list \<Rightarrow> error + 'a ndarray" where
  "np_append_star streams =
     (case streams of
        [a, b] \<Rightarrow> if length a = length b then Inr (A2 [a, b]) else Inl ValueError
      | _ \<Rightarrow> Inl TypeError)"

text \<open>Lines 50 to 61; the second component is \<open>rec['nchannels']\<close> afterwards.\<close>

definition channel_adjust :: "'a list \<Rightarrow> int \<Rightarrow> int \<Rightarrow> error + ('a ndarray \<times> int)" where
  "channel_adjust xs src tgt =
     (if src = 1 then
        (if tgt > src then Inr (A2 (replicate (nat tgt) xs), tgt) else Inr (A1 xs, src))
      else case deinterleave xs src tgt of
             Inl e \<Rightarrow> Inl e
           | Inr streams \<Rightarrow>
               (case np_append_star streams of Inl e \<Rightarrow> Inl e | Inr arr \<Rightarrow> Inr (arr, src)))"

definition vstack2 :: "'a ndarray \<Rightarrow> 'a list \<Rightarrow> error + 'a ndarray" where
  "vstack2 res r =
     (case res of
        A1 a \<Rightarrow> if length a = length r then Inr (A2 [a, r]) else Inl ValueError
      | A2 rows \<Rightarrow>
          if \<forall>x \<in> set rows. length x = length r then Inr (A2 (rows @ [r])) else Inl ValueError)"

fun vstack_rows :: "'a ndarray \<Rightarrow> 'a list list \<Rightarrow> error + 'a ndarray" where
  "vstack_rows res [] = Inr res"
| "vstack_rows res (r # rs) =
     (case vstack2 res r of Inl e \<Rightarrow> Inl e | Inr res' \<Rightarrow> vstack_rows res' rs)"

text \<open>Lines 63 to 77.\<close>

definition rate_convert ::
    "audio_env \<Rightarrow> dtype \<Rightarrow> elem ndarray \<Rightarrow> int \<Rightarrow> int \<Rightarrow> error + (dtype \<times> elem ndarray)" where
  "rate_convert A dt arr tgt_rate src_rate =
     (if tgt_rate = src_rate then Inr (dt, arr)
      else if src_rate = 0 then Inl ZeroDivisionError
      else case arr of
             A1 xs \<Rightarrow> Inr (Dtype FloatKind 4, A1 (resample A dt xs tgt_rate src_rate))
           | A2 rows \<Rightarrow>
               (case rows of
                  [] \<Rightarrow> Inl IndexError
                | r # rs \<Rightarrow>
                    (case vstack_rows (A1 (resample A dt r tgt_rate src_rate))
                            (map (\<lambda>x. resample A dt x tgt_rate src_rate) rs) of
                       Inl e \<Rightarrow> Inl e
                     | Inr res \<Rightarrow> Inr (Dtype FloatKind 4, res))))"

text \<open>
  Modelled from the spec: \<open>sudio.audioutils.channel.shuffle2d_channels\<close> is not under
  \<open>src/\<close>. Section 4.4, step 4: the per-channel streams are re-interleaved into a single
  sample-major sequence, channel-minor: sample \<open>j\<close> of every channel, channel by channel,
  then sample \<open>j + 1\<close>.
\<close>

definition shuffle2d_channels :: "'a list list \<Rightarrow> 'a list" where
  "shuffle2d_channels rows =
     (case rows of
        [] \<Rightarrow> []
      | r # rs \<Rightarrow> concat (map (\<lambda>j. map (\<lambda>c. c ! j) rows) [0..<length r]))"

text \<open>Lines 79 and 80, for \<open>output_data = 'byte'\<close>.\<close>

definition interleave_step :: "int \<Rightarrow> 'a ndarray \<Rightarrow> 'a ndarray" where
  "interleave_step nch arr =
     (if nch > 1 then (case arr of A2 rows \<Rightarrow> A1 (shuffle2d_channels rows) | A1 xs \<Rightarrow> A1 xs)
      else arr)"

text \<open>
  \<open>astype\<close>: the same dtype copies; between two integer widths the little-endian two's
  complement value is cut or sign-extended; anything else is the environment's.
\<close>

definition cast_int :: "nat \<Rightarrow> elem \<Rightarrow> elem" where
  "cast_int n b =
     (if n \<le> length b then take n b
      else b @ replicate (n - length b) (if b \<noteq> [] \<and> 128 \<le> last b then 255 else 0))"

definition astype :: "audio_env \<Rightarrow> dtype \<Rightarrow> dtype \<Rightarrow> elem \<Rightarrow> elem" where
  "astype A src dst x =
     (if src = dst then x
      else case (src, dst) of
             (Dtype IntKind m, Dtype IntKind n) \<Rightarrow> cast_int n x
           | _ \<Rightarrow> convert A src dst x)"

definition map_ndarray :: "('a \<Rightarrow> 'b) \<Rightarrow> 'a ndarray \<Rightarrow> 'b ndarray" where
  "map_ndarray f arr = (case arr of A1 xs \<Rightarrow> A1 (map f xs) | A2 rows \<Rightarrow> A2 (map (map f) rows))"

definition tobytes :: "elem ndarray \<Rightarrow> byte list" where
  "tobytes arr = (case arr of A1 xs \<Rightarrow> concat xs | A2 rows \<Rightarrow> concat (concat rows))"

text \<open>
  \<open>synchronize_audio(rec, nchannels, sample_rate, sample_format_id)\<close> with
  \<open>output_data = 'byte'\<close>, the default and what \<open>handle_cached_record\<close> uses.
\<close>

definition synchronize_audio ::
    "audio_env \<Rightarrow> audio_record \<Rightarrow> int \<Rightarrow> int \<Rightarrow> int option \<Rightarrow> error + audio_record" where
  "synchronize_audio A rec tgt_nchannels sample_rate sample_format_id =
     (case sample_form A (sampleFormat rec) of
        Inl e \<Rightarrow> Inl e
      | Inr form \<Rightarrow>
     (case np_frombuffer (rec_o rec) form of
        Inl e \<Rightarrow> Inl e
      | Inr samples \<Rightarrow>
     (case channel_adjust samples (nchannels rec) tgt_nchannels of
        Inl e \<Rightarrow> Inl e
      | Inr (arr1, nch1) \<Rightarrow>
     (case rate_convert A form arr1 sample_rate (frameRate rec) of
        Inl e \<Rightarrow> Inl e
      | Inr (form1, arr2) \<Rightarrow>
     (case sample_form A sample_format_id of
        Inl e \<Rightarrow> Inl e
      | Inr form2 \<Rightarrow>
          if \<not> dtype_ok form2 then Inl TypeError
          else
            let out = tobytes (map_ndarray (astype A form1 form2) (interleave_step nch1 arr2));
                denom = sample_rate * tgt_nchannels * int (itemsize form2)
            in if denom = 0 then Inl ZeroDivisionError
               else Inr (rec\<lparr>rec_o := Bytes out, rec_size := int (length out),
                              frameRate := sample_rate, nchannels := tgt_nchannels,
                              sampleFormat := sample_format_id,
                              duration := Some (int (length out), denom)\<rparr>))))))"

section \<open>handle_cached_record\<close>

text \<open>
  What the call reads from \<open>master_obj\<close>: the synchronization targets, the list
  \<open>master_obj._cache()\<close>, and the class constants \<open>CACHE_INFO\<close> and \<open>BUFFER_TYPE\<close>.
\<close>

record master =
  m_sample_format :: "int option"
  m_nchannels :: int
  m_sample_rate :: int
  m_cache :: "string list"
  CACHE_INFO :: nat
  BUFFER_TYPE :: string

text \<open>
  The retry loop of lines 124 to 142. \<open>path_server n\<close> is what the \<open>n\<close>-th call of
  \<open>path_server()\<close> returns within this call of \<open>handle_cached_record\<close>; \<open>f\<close> is the variable
  \<open>f\<close>, unassigned at first. Every \<open>OSError\<close> is caught and goes round again; so does a
  candidate that exists and opens, because only the branch that copies has a \<open>break\<close>. The
  loop need not end, so the result is an option.
\<close>

partial_function (option) relocate ::
    "os_env \<Rightarrow> (nat \<Rightarrow> string) \<Rightarrow> string \<Rightarrow> files \<Rightarrow> nat \<Rightarrow> handle option
       \<Rightarrow> (handle \<times> files \<times> nat) option" where
  "relocate os path_server path fs n f =
     (let new_path = path_server n in
      if fs new_path \<noteq> None then
        (case os_rename_self os fs new_path of
           Inl e \<Rightarrow> relocate os path_server path fs (Suc n) f
         | Inr u \<Rightarrow>
             (case open_file os fs new_path RB_plus of
                Inl e \<Rightarrow> relocate os path_server path fs (Suc n) f
              | Inr (h, fs') \<Rightarrow> relocate os path_server path fs' (Suc n) (Some h)))
      else
        (case open_file os fs path RB_plus of
           Inl e \<Rightarrow> relocate os path_server path fs (Suc n) f
         | Inr (pre_file, fs1) \<Rightarrow>
             (case open_file os fs1 new_path WB_plus of
                Inl e \<Rightarrow> relocate os path_server path fs (Suc n) f
              | Inr (h, fs2) \<Rightarrow>
                  (case file_write fs2 h (copy_chunks 10000000 (file_read_all fs2 pre_file) []) of
                     (h', fs3) \<Rightarrow> Some (h', fs3, Suc n)))))"

text \<open>
  Lines 119 to 143 and the \<open>else: raise DecodeError\<close> of line 187: the open entry and the
  file system, or \<open>DecodeError\<close> when the path is not in the cache list.
\<close>

definition locate ::
    "os_env \<Rightarrow> (nat \<Rightarrow> string) \<Rightarrow> string list \<Rightarrow> files \<Rightarrow> (error + (handle \<times> files)) option" where
  "locate os path_server cache fs =
     (let path = path_server 0 in
      if path \<in> set cache then
        (case os_rename_self os fs path of
           Inl e \<Rightarrow>
             map_option (\<lambda>(h, fs', n). Inr (h, fs')) (relocate os path_server path fs 1 None)
         | Inr u \<Rightarrow>
             (case open_file os fs path RB_plus of
                Inl e \<Rightarrow>
                  map_option (\<lambda>(h, fs', n). Inr (h, fs')) (relocate os path_server path fs 1 None)
              | Inr (h, fs') \<Rightarrow> Some (Inr (h, fs'))))
      else Some (Inl DecodeError))"

text \<open>
  The one way the loop ends: candidate \<open>k\<close> does not exist, the original entry opens, the
  candidate is created, and the entry's bytes are copied into it.
\<close>

definition copied_to ::
    "os_env \<Rightarrow> (nat \<Rightarrow> string) \<Rightarrow> string \<Rightarrow> files \<Rightarrow> nat \<Rightarrow> handle \<times> files \<times> nat \<Rightarrow> bool" where
  "copied_to os path_server path fs k y \<longleftrightarrow>
     (case fs path of
        None \<Rightarrow> False
      | Some bs \<Rightarrow>
          fs (path_server k) = None \<and> \<not> open_busy os path \<and> \<not> open_busy os (path_server k)
          \<and> y = (\<lparr>h_name = path_server k, h_pos = length bs\<rparr>, fs(path_server k \<mapsto> bs), Suc k))"

text \<open>
  How the \<open>try\<close> block ends: with the record and its open entry, with \<open>DecodeError\<close>
  (the record and the file system as they are at the \<open>raise\<close>), or with another exception,
  which leaves the function.
\<close>

datatype outcome = Hit audio_record handle files | Miss audio_record files | Raised error

text \<open>\<open>record['sampleFormat'] if record['sampleFormat'] else 0\<close>, and the four header values.\<close>

definition format_or_zero :: "int option \<Rightarrow> int" where
  "format_or_zero fmt = (case fmt of None \<Rightarrow> 0 | Some v \<Rightarrow> if v \<noteq> 0 then v else 0)"

definition record_head :: "audio_record \<Rightarrow> int list" where
  "record_head r = [rec_size r, frameRate r, format_or_zero (sampleFormat r), nchannels r]"

text \<open>The keyword arguments both calls of \<open>write_to_cached_file\<close> share.\<close>

definition entry_wargs :: "master \<Rightarrow> audio_record \<Rightarrow> wargs" where
  "entry_wargs M r =
     wargs_default\<lparr>head := record_head r, data := Some (rec_o r),
                   pre_seek := Some (0, SEEK_SET), pre_truncate := True, pre_flush := True,
                   after_seek := Some (int (CACHE_INFO M), SEEK_SET), after_flush := True\<rparr>"

text \<open>Lines 154 to 184, after the header has been decoded.\<close>

definition reconcile ::
    "audio_env \<Rightarrow> os_env \<Rightarrow> master \<Rightarrow> audio_record \<Rightarrow> handle \<Rightarrow> files
       \<Rightarrow> int \<times> int \<times> int \<times> int \<Rightarrow> int option \<Rightarrow> int \<Rightarrow> int \<Rightarrow> bool \<Rightarrow> outcome" where
  "reconcile A os M rec f fs hdr sync_sample_format_id sync_nchannels sync_sample_rate safe_load =
     (case hdr of (csize, cframe_rate, csample_format0, cnchannels) \<Rightarrow>
        let csample_format = (if csample_format0 \<noteq> 0 then Some csample_format0 else None);
            rec1 = rec\<lparr>rec_o := Stream f, rec_size := csize, frameRate := cframe_rate,
                       nchannels := cnchannels, sampleFormat := csample_format\<rparr>
        in if cnchannels = sync_nchannels \<and> csample_format = sync_sample_format_id
              \<and> cframe_rate = sync_sample_rate
           then Hit rec1 f fs
           else if safe_load then
             (case synchronize_audio A (rec1\<lparr>rec_o := Bytes (file_read_all fs f)\<rparr>)
                     sync_nchannels sync_sample_rate sync_sample_format_id of
                Inl e \<Rightarrow> Raised e
              | Inr rec2 \<Rightarrow>
                  (case write_to_cached_file os ((entry_wargs M rec2)\<lparr>buffered_random := Some f\<rparr>) fs of
                     Inl e \<Rightarrow> Raised e
                   | Inr (f', n, fs') \<Rightarrow> Hit (rec2\<lparr>rec_o := Stream f'\<rparr>) f' fs'))
           else Hit rec1 f fs)"

text \<open>
  Lines 144 to 184. A header that does not decode closes and removes the file and raises
  \<open>DecodeError\<close>; \<open>record['o']\<close> is the closed handle then.
\<close>

definition validate ::
    "audio_env \<Rightarrow> os_env \<Rightarrow> master \<Rightarrow> audio_record \<Rightarrow> handle \<Rightarrow> files
       \<Rightarrow> int option \<Rightarrow> int \<Rightarrow> int \<Rightarrow> bool \<Rightarrow> outcome" where
  "validate A os M rec f fs sync_sample_format_id sync_nchannels sync_sample_rate safe_load =
     (case seek fs f (0, SEEK_SET) of
        Inl e \<Rightarrow> Raised e
      | Inr f0 \<Rightarrow>
          (case file_read fs f0 (CACHE_INFO M) of (cache_info, f1) \<Rightarrow>
             (case decode_header cache_info of
                Inl e \<Rightarrow> Miss (rec\<lparr>rec_o := Stream f1\<rparr>) (fs(h_name f1 := None))
              | Inr hdr \<Rightarrow>
                  reconcile A os M rec f1 fs hdr sync_sample_format_id sync_nchannels
                    sync_sample_rate safe_load)))"

text \<open>The whole \<open>try\<close> block, lines 118 to 187.\<close>

definition try_block ::
    "audio_env \<Rightarrow> os_env \<Rightarrow> master \<Rightarrow> (nat \<Rightarrow> string) \<Rightarrow> audio_record \<Rightarrow> files
       \<Rightarrow> int option \<Rightarrow> int \<Rightarrow> int \<Rightarrow> bool \<Rightarrow> outcome option" where
  "try_block A os M path_server rec fs sync_sample_format_id sync_nchannels sync_sample_rate safe_load =
     (case locate os path_server (m_cache M) fs of
        None \<Rightarrow> None
      | Some (Inl e) \<Rightarrow> Some (if e = DecodeError then Miss rec fs else Raised e)
      | Some (Inr (f, fs1)) \<Rightarrow>
          Some (validate A os M rec f fs1 sync_sample_format_id sync_nchannels sync_sample_rate
                  safe_load))"

text \<open>
  The handler of \<open>DecodeError\<close>, lines 189 to 208. \<open>decoder\<close> is what the decoder returns,
  \<open>None\<close> when no decoder was given.
\<close>

definition rebuild ::
    "os_env \<Rightarrow> master \<Rightarrow> string \<Rightarrow> payload option \<Rightarrow> audio_record \<Rightarrow> files
       \<Rightarrow> error + (audio_record \<times> handle \<times> files)" where
  "rebuild os M path decoder rec fs =
     (let rec1 = (case decoder of None \<Rightarrow> rec | Some d \<Rightarrow> rec\<lparr>rec_o := d\<rparr>) in
      case (case rec_o rec1 of
              Stream h \<Rightarrow>
                (case fs (h_name h) of None \<Rightarrow> Inl OSError | Some bs \<Rightarrow> Inr (int (length bs)))
            | Bytes bs \<Rightarrow> Inr (int (length bs + CACHE_INFO M))) of
        Inl e \<Rightarrow> Inl e
      | Inr sz \<Rightarrow>
          (let rec2 = rec1\<lparr>rec_size := sz\<rparr> in
           case write_to_cached_file os ((entry_wargs M rec2)\<lparr>file_name := Some path\<rparr>) fs of
             Inl e \<Rightarrow> Inl e
           | Inr (f, n, fs') \<Rightarrow> Inr (rec2\<lparr>rec_o := Stream f\<rparr>, f, fs')))"

text \<open>\<open>str.index\<close>, \<open>str.rfind\<close> of one character, and \<open>s[pre:post]\<close> for two naturals.\<close>

fun str_index :: "string \<Rightarrow> string \<Rightarrow> nat option" where
  "str_index sub [] = (if sub = [] then Some 0 else None)"
| "str_index sub (c # cs) =
     (if take (length sub) (c # cs) = sub then Some 0 else map_option Suc (str_index sub cs))"

definition rfind :: "char \<Rightarrow> string \<Rightarrow> int" where
  "rfind c s =
     (case filter (\<lambda>i. s ! i = c) (rev [0..<length s]) of [] \<Rightarrow> - 1 | i # js \<Rightarrow> int i)"

definition str_slice :: "string \<Rightarrow> nat \<Rightarrow> nat \<Rightarrow> string" where
  "str_slice s pre post = drop pre (take post s)"

text \<open>Lines 210 to 220; \<open>record['o']\<close> is the open entry \<open>f\<close> on every path that gets here.\<close>

definition finish ::
    "audio_env \<Rightarrow> master \<Rightarrow> audio_record \<Rightarrow> handle \<Rightarrow> error + audio_record" where
  "finish A M rec f =
     (case get_sample_size A (sampleFormat rec) of
        None \<Rightarrow> Inl UnsupportedFormat
      | Some w \<Rightarrow>
          (let denom = frameRate rec * nchannels rec * int w in
           if denom = 0 then Inl ZeroDivisionError
           else
             let rec1 = rec\<lparr>duration := Some (rec_size rec, denom)\<rparr> in
             if is_series rec1 then
               (case str_index (BUFFER_TYPE M) (h_name f) of
                  None \<Rightarrow> Inl ValueError
                | Some post \<Rightarrow>
                    (let pre0 = max (rfind (CHR 0x5C) (h_name f)) (rfind (CHR ''/'') (h_name f));
                         pre = (if pre0 > 0 then pre0 + 1 else 0)
                     in Inr (rec1\<lparr>rec_name := str_slice (h_name f) (nat pre) post\<rparr>)))
             else Inr rec1))"

definition handle_cached_record ::
    "audio_env \<Rightarrow> os_env \<Rightarrow> audio_record \<Rightarrow> (nat \<Rightarrow> string) \<Rightarrow> master \<Rightarrow> payload option
       \<Rightarrow> int option \<Rightarrow> int option \<Rightarrow> int option \<Rightarrow> bool \<Rightarrow> files
       \<Rightarrow> (error + (audio_record \<times> files)) option" where
  "handle_cached_record A os rec path_server M decoder sync_sample_format_id sync_nchannels
       sync_sample_rate safe_load fs =
     (let sfmt = (case sync_sample_format_id of None \<Rightarrow> m_sample_format M | Some v \<Rightarrow> Some v);
          snch = (case sync_nchannels of None \<Rightarrow> m_nchannels M | Some v \<Rightarrow> v);
          srate = (case sync_sample_rate of None \<Rightarrow> m_sample_rate M | Some v \<Rightarrow> v);
          path = path_server 0
      in case try_block A os M path_server rec fs sfmt snch srate safe_load of
           None \<Rightarrow> None
         | Some (Raised e) \<Rightarrow> Some (Inl e)
         | Some (Hit rec1 f fs1) \<Rightarrow>
             Some (case finish A M rec1 f of Inl e \<Rightarrow> Inl e | Inr rec2 \<Rightarrow> Inr (rec2, fs1))
         | Some (Miss rec1 fs1) \<Rightarrow>
             Some (case rebuild os M path decoder rec1 fs1 of
                     Inl e \<Rightarrow> Inl e
                   | Inr (rec2, f, fs2) \<Rightarrow>
                       (case finish A M rec2 f of Inl e \<Rightarrow> Inl e | Inr rec3 \<Rightarrow> Inr (rec3, fs2))))"

text \<open>
  The claim's reading of line 60, in the words of the spec: the stride is the target
  channel count.
\<close>

definition deinterleave_target_stride :: "'a list \<Rightarrow> int \<Rightarrow> 'a list list" where
  "deinterleave_target_stride xs tgt = map (\<lambda>i. py_slice_from xs i tgt) [0..<nat tgt]"

section \<open>Concrete environments for the evaluations\<close>

definition quiet_os :: os_env where
  "quiet_os = \<lparr>rename_busy = (\<lambda>p. False), open_busy = (\<lambda>p. False)\<rparr>"

definition no_files :: files where
  "no_files = (\<lambda>p. None)"

definition both_targets :: wargs where
  "both_targets =
     wargs_default\<lparr>file_name := Some ''a.bin'', buffered_random := Some \<lparr>h_name = ''b.bin'', h_pos = 0\<rparr>,
                   data := Some (Bytes [1, 2, 3])\<rparr>"

text \<open>
  Modelled from the spec: \<open>Audio.get_sample_size\<close> and \<open>SampleFormat\<close> are not under
  \<open>src/\<close>. The end-to-end example of section 8 has the tag 1 for a 2-byte signed integer;
  this instance knows that tag only. Its float tag is 9, and its resampler and float
  conversions return their input: none of the evaluations below reaches them.
\<close>

definition example_audio :: audio_env where
  "example_audio =
     \<lparr>get_sample_size = (\<lambda>fmt. if fmt = Some 1 then Some 2 else None),
      formatFloat32 = 9,
      resample = (\<lambda>dt xs tgt src. xs),
      convert = (\<lambda>src dst x. x)\<rparr>"

definition three_channel_record :: audio_record where
  "three_channel_record =
     \<lparr>rec_o = Bytes [0, 1, 2, 3, 4, 5, 6, 7, 8, 9, 10, 11], rec_size = 12, frameRate = 8000,
      nchannels = 3, sampleFormat = Some 1, duration = None, is_series = False, rec_name = []\<rparr>"

definition six_samples :: "nat list" where
  "six_samples = [0, 1, 2, 3, 4, 5]"

definition mono_record :: audio_record where
  "mono_record =
     \<lparr>rec_o = Bytes [1, 2, 3, 4], rec_size = 4, frameRate = 8000,
      nchannels = 1, sampleFormat = Some 1, duration = None, is_series = False, rec_name = []\<rparr>"

definition busy_os :: os_env where
  "busy_os = \<lparr>rename_busy = (\<lambda>p. p = ''a.bin''), open_busy = (\<lambda>p. False)\<rparr>"

definition three_paths :: "nat \<Rightarrow> string" where
  "three_paths n = (if n = 0 then ''a.bin'' else if n = 1 then ''b.bin'' else ''c.bin'')"


definition two_files :: files where
  "two_files = (\<lambda>p. if p = ''a.bin'' then Some [1, 2, 3] else if p = ''b.bin'' then Some [4] else None)"


section \<open>Properties of the codec\<close>

lemma length_le_bytes [simp]: "length (le_bytes k n) = k"
  by (induction k arbitrary: n) auto

lemma le_value_le_bytes: "le_value (le_bytes k n) = n mod 256 ^ k"
proof (induction k arbitrary: n)
  case 0
  show ?case by simp
next
  case (Suc k)
  have "unat (of_nat (n mod 256) :: byte) = n mod 256"
    by (simp add: unat_of_nat)
  then have "le_value (le_bytes (Suc k) n) = n mod 256 + 256 * ((n div 256) mod 256 ^ k)"
    using Suc.IH [of "n div 256"] by simp
  also have "\<dots> = n mod 256 ^ Suc k"
    by (simp add: mod_mult2_eq)
  finally show ?case .
qed

lemma chunks_Nil [simp]: "chunks n [] = []"
  by (simp add: chunks.simps)

lemma chunks_append:
  assumes "0 < n" "length x = n"
  shows "chunks n (x @ ys) = x # chunks n ys"
  using assms by (subst chunks.simps) auto

lemma chunks_concat:
  assumes "0 < n" "\<forall>x \<in> set xs. length x = n"
  shows "chunks n (concat xs) = xs"
  using assms by (induction xs) (simp_all add: chunks_append)

lemma copy_chunks_all: "0 < chunk \<Longrightarrow> copy_chunks chunk rest acc = acc @ rest"
proof (induction chunk rest acc rule: copy_chunks.induct)
  case (1 chunk rest acc)
  show ?case
  proof (cases "take chunk rest = []")
    case True
    with 1(2) have "rest = []" by (cases rest) auto
    then show ?thesis by (subst copy_chunks.simps) simp
  next
    case False
    then have "copy_chunks chunk rest acc = copy_chunks chunk (drop chunk rest) (acc @ take chunk rest)"
      by (subst copy_chunks.simps) (simp add: Let_def)
    also have "\<dots> = (acc @ take chunk rest) @ drop chunk rest"
      using 1(1) [OF refl False] 1(2) by simp
    finally show ?thesis by simp
  qed
qed

lemma encode_header4:
  assumes "\<forall>v \<in> set [a, b, c, d]. 0 \<le> v \<and> v < 2 ^ 64"
  shows "encode_header [a, b, c, d] =
           Inr (concat [le_bytes 8 (nat a), le_bytes 8 (nat b), le_bytes 8 (nat c), le_bytes 8 (nat d)])"
  using assms by (simp add: encode_header_def np_asarray_u8_def u8_tobytes_def)

lemma le_value_u8:
  assumes "0 \<le> v" "v < 2 ^ 64"
  shows "int (le_value (le_bytes 8 (nat v))) = v"
proof -
  have "nat v < 256 ^ 8" using assms by simp
  then have "le_value (le_bytes 8 (nat v)) = nat v"
    by (simp only: le_value_le_bytes mod_less)
  then show ?thesis using assms by simp
qed

lemma decode_header4:
  assumes "\<forall>v \<in> set [a, b, c, d]. 0 \<le> v \<and> v < 2 ^ 64"
  shows "decode_header
           (concat [le_bytes 8 (nat a), le_bytes 8 (nat b), le_bytes 8 (nat c), le_bytes 8 (nat d)])
         = Inr (a, b, c, d)"
proof -
  let ?cs = "[le_bytes 8 (nat a), le_bytes 8 (nat b), le_bytes 8 (nat c), le_bytes 8 (nat d)]"
  have "chunks 8 (concat ?cs) = ?cs"
    by (rule chunks_concat) simp_all
  moreover have "length (concat ?cs) mod 8 = 0" by simp
  ultimately have "np_frombuffer_u8 (concat ?cs) = Inr (map (\<lambda>c. int (le_value c)) ?cs)"
    by (simp only: np_frombuffer_u8_def) simp
  then show ?thesis
    using assms by (simp add: decode_header_def unpack4_def le_value_u8)
qed

section \<open>Lists: chunks, strides and interleaving\<close>

lemma chunks_step: "n \<noteq> 0 \<Longrightarrow> xs \<noteq> [] \<Longrightarrow> chunks n xs = take n xs # chunks n (drop n xs)"
  by (subst chunks.simps) simp



lemma every_nth_index:
  assumes "0 < k"
  shows "(j < length (every_nth k xs) \<longleftrightarrow> j * k < length xs)
       \<and> (j * k < length xs \<longrightarrow> every_nth k xs ! j = xs ! (j * k))"
proof (induction j arbitrary: xs)
  case 0
  show ?case by (cases xs) auto
next
  case (Suc j)
  show ?case
  proof (cases xs)
    case Nil
    then show ?thesis by simp
  next
    case (Cons x ys)
    have "Suc j * k = k + j * k" by simp
    moreover obtain k' where k': "k = Suc k'" using assms by (cases k) auto
    ultimately show ?thesis
      using Suc.IH [of "drop (k - 1) ys"] Cons
      by (auto simp: less_diff_conv add_ac)
  qed
qed



text \<open>
  C4. Encoding four values of \<open>[0, 2^64)\<close> as 8-byte little-endian unsigned integers gives
  32 bytes, and decoding those bytes gives the four values back, in the same order.
\<close>

theorem header_roundtrip:
  assumes "\<forall>v \<in> set [a, b, c, d]. 0 \<le> v \<and> v < 2 ^ 64"
  shows "\<exists>bs. encode_header [a, b, c, d] = Inr bs \<and> length bs = 32
              \<and> decode_header bs = Inr (a, b, c, d)"
  using encode_header4 [OF assms] decode_header4 [OF assms] by simp

theorem header_roundtrip_witness:
  "\<exists>bs. encode_header [64000, 16000, 1, 2] = Inr bs \<and> length bs = 32
        \<and> decode_header bs = Inr (64000, 16000, 1, 2)"
  using header_roundtrip [of 64000 16000 1 2] by simp

section \<open>Properties of write_to_cached_file\<close>

lemma open_file_not_ValueError: "open_file os fs p m \<noteq> Inl ValueError"
  by (simp add: open_file_def split: file_mode.splits)

lemma seek_not_ValueError: "opt_seek fs f sk \<noteq> Inl ValueError"
  by (simp add: opt_seek_def seek_def Let_def split: option.splits prod.splits)

lemma write_head_not_ValueError: "write_head fs f h \<noteq> Inl ValueError"
  by (simp add: write_head_def encode_header_def np_asarray_u8_def split: sum.splits prod.splits)

lemma select_target_ValueError:
  "select_target os a fs = Inl ValueError
     \<longleftrightarrow> buffered_random a = None \<and> (file_name a = None \<or> file_name a = Some [])"
  using open_file_not_ValueError
  by (auto simp: select_target_def split: option.splits)

lemma write_ValueError_iff:
  "write_to_cached_file os a fs = Inl ValueError \<longleftrightarrow> select_target os a fs = Inl ValueError"
  using seek_not_ValueError write_head_not_ValueError
  by (auto simp: write_to_cached_file_def Let_def split: sum.splits prod.splits)

text \<open>
  C6, as the code has it. The call fails with the \<open>ValueError\<close> of the missing target
  exactly when neither an open handle nor a non-empty file name is supplied. When both are
  supplied the handle is written to and the file name is ignored.
\<close>

theorem write_target_rule:
  "(write_to_cached_file os a fs = Inl ValueError
      \<longleftrightarrow> buffered_random a = None \<and> (file_name a = None \<or> file_name a = Some []))
   \<and> (buffered_random a \<noteq> None \<longrightarrow>
        write_to_cached_file os a fs = write_to_cached_file os (a\<lparr>file_name := None\<rparr>) fs)"
proof (intro conjI impI)
  show "write_to_cached_file os a fs = Inl ValueError
      \<longleftrightarrow> buffered_random a = None \<and> (file_name a = None \<or> file_name a = Some [])"
    by (simp add: write_ValueError_iff select_target_ValueError)
next
  assume "buffered_random a \<noteq> None"
  then have "select_target os (a\<lparr>file_name := None\<rparr>) fs = select_target os a fs"
    by (auto simp: select_target_def)
  then show "write_to_cached_file os a fs = write_to_cached_file os (a\<lparr>file_name := None\<rparr>) fs"
    unfolding write_to_cached_file_def
    by (simp add: Let_def cong: sum.case_cong prod.case_cong)
qed

theorem write_target_rule_witness:
  "write_to_cached_file quiet_os wargs_default no_files = Inl ValueError
   \<and> write_to_cached_file quiet_os both_targets no_files
       = write_to_cached_file quiet_os (both_targets\<lparr>file_name := None\<rparr>) no_files"
  using write_target_rule [of quiet_os wargs_default no_files]
        write_target_rule [of quiet_os both_targets no_files]
  by (simp add: wargs_default_def both_targets_def)

text \<open>
  The claim as stated fails when both targets are supplied: the call succeeds, and the
  three bytes go to the handle's file.
\<close>

theorem write_both_targets_counterexample:
  "\<not> (write_to_cached_file quiet_os both_targets no_files = Inl ValueError)"
  by (simp add: write_ValueError_iff select_target_ValueError both_targets_def wargs_default_def)

section \<open>Properties of synchronize_audio\<close>

lemma py_slice_from_length:
  assumes "0 < step"
  shows "j < length (py_slice_from xs i step) \<longleftrightarrow> i + j * nat step < length xs"
proof -
  have k: "0 < nat step" using assms by simp
  show ?thesis
    using every_nth_index [OF k, of j "drop i xs"] assms
    by (auto simp: py_slice_from_def less_diff_conv add.commute)
qed

lemma py_slice_from_nth:
  assumes "0 < step" "i + j * nat step < length xs"
  shows "py_slice_from xs i step ! j = xs ! (i + j * nat step)"
proof -
  have k: "0 < nat step" using assms by simp
  show ?thesis
    using every_nth_index [OF k, of j "drop i xs"] assms
    by (auto simp: py_slice_from_def less_diff_conv add.commute)
qed

text \<open>
  C1, as the code has it. For a record of more than one channel, line 60 makes as many
  streams as the target has channels, and the stride is the record's own channel count:
  stream \<open>i\<close> holds the samples at positions \<open>i\<close>, \<open>i + src\<close>, \<open>i + 2 * src\<close>, ... and
  nothing else. With fewer target channels than source channels, the samples of the
  channels from \<open>tgt\<close> on are in no stream.
\<close>

theorem deinterleave_source_stride:
  assumes "1 < src"
  shows "\<exists>streams. deinterleave xs src tgt = Inr streams \<and> length streams = nat tgt
           \<and> (\<forall>i < nat tgt. \<forall>j.
                 (j < length (streams ! i) \<longleftrightarrow> i + j * nat src < length xs)
               \<and> (i + j * nat src < length xs \<longrightarrow> streams ! i ! j = xs ! (i + j * nat src)))"
proof (cases "tgt \<le> 0")
  case True
  then show ?thesis by (simp add: deinterleave_def)
next
  case False
  have s: "0 < src" using assms by simp
  have "deinterleave xs src tgt = Inr (map (\<lambda>i. py_slice_from xs i src) [0..<nat tgt])"
    using False assms by (simp add: deinterleave_def)
  then show ?thesis
    by (simp add: py_slice_from_length [OF s] py_slice_from_nth [OF s])
qed

theorem deinterleave_source_stride_witness:
  "\<exists>streams. deinterleave six_samples 3 2 = Inr streams \<and> length streams = nat 2
           \<and> (\<forall>i < nat 2. \<forall>j.
                 (j < length (streams ! i) \<longleftrightarrow> i + j * nat 3 < length six_samples)
               \<and> (i + j * nat 3 < length six_samples \<longrightarrow> streams ! i ! j = six_samples ! (i + j * nat 3)))"
  using deinterleave_source_stride [of 3 six_samples 2] by simp

text \<open>
  The claim as stated has the target channel count as the stride. Six samples of three
  channels, taken to two channels: the code's streams are \<open>[0, 3]\<close> and \<open>[1, 4]\<close>, a
  stride of two would give \<open>[0, 2, 4]\<close> and \<open>[1, 3, 5]\<close>.
\<close>

lemma deinterleave_six: "deinterleave six_samples 3 2 = Inr [[0, 3], [1, 4]]"
  by (simp add: deinterleave_def py_slice_from_def six_samples_def upt_rec numeral_2_eq_2 numeral_3_eq_3)

theorem deinterleave_target_stride_counterexample:
  "deinterleave six_samples 3 2 \<noteq> Inr (deinterleave_target_stride six_samples 2)"
  by code_simp

text \<open>
  C5 at a three-channel record: two frames of three 2-byte samples, synchronized to its own
  format. Line 61 hands three streams to \<open>np.append\<close>, which takes two, and the call
  raises \<open>TypeError\<close> instead of returning the payload unchanged.
\<close>

theorem three_channels_same_format_fails:
  "synchronize_audio example_audio three_channel_record 3 8000 (Some 1) = Inl TypeError"
  by code_simp


lemma astype_same [simp]: "astype A form form = (\<lambda>x. x)"
  by (rule ext) (simp add: astype_def)





lemma mono_upmix_value:
  "synchronize_audio example_audio mono_record 2 8000 (Some 1)
     = Inr (mono_record\<lparr>rec_o := Bytes [1, 2, 1, 2, 3, 4, 3, 4], rec_size := 8, nchannels := 2,
                        duration := Some (8, 32000)\<rparr>)"
  by code_simp

section \<open>The relocation loop\<close>

lemma relocate_existing:
  assumes "fs (path_server n) \<noteq> None"
  shows "relocate os path_server path fs n f
         = relocate os path_server path fs (Suc n)
             (if \<not> rename_busy os (path_server n) \<and> \<not> open_busy os (path_server n)
              then Some \<lparr>h_name = path_server n, h_pos = 0\<rparr> else f)"
  using assms
  by (subst relocate.simps) (auto simp: Let_def os_rename_self_def open_file_def)

lemma relocate_free:
  assumes "fs (path_server n) = None"
  shows "relocate os path_server path fs n f
         = (case fs path of
              None \<Rightarrow> relocate os path_server path fs (Suc n) f
            | Some bs \<Rightarrow>
                if open_busy os path \<or> open_busy os (path_server n)
                then relocate os path_server path fs (Suc n) f
                else Some (\<lparr>h_name = path_server n, h_pos = length bs\<rparr>,
                           fs(path_server n \<mapsto> bs), Suc n))"
proof (cases "fs path")
  case None
  then show ?thesis using assms
    by (subst relocate.simps) (simp add: Let_def open_file_def)
next
  case (Some bs)
  then have ne: "path \<noteq> path_server n" using assms by auto
  show ?thesis using assms Some ne
    by (subst relocate.simps)
       (simp add: Let_def open_file_def file_write_def file_read_all_def content_def
          write_at_def copy_chunks_all)
qed

lemma relocate_step:
  assumes "(let new_path = path_server n in
      if fs new_path \<noteq> None then
        (case os_rename_self os fs new_path of
           Inl e \<Rightarrow> r os path_server path fs (Suc n) f
         | Inr u \<Rightarrow>
             (case open_file os fs new_path RB_plus of
                Inl e \<Rightarrow> r os path_server path fs (Suc n) f
              | Inr (h, fs') \<Rightarrow> r os path_server path fs' (Suc n) (Some h)))
      else
        (case open_file os fs path RB_plus of
           Inl e \<Rightarrow> r os path_server path fs (Suc n) f
         | Inr (pre_file, fs1) \<Rightarrow>
             (case open_file os fs1 new_path WB_plus of
                Inl e \<Rightarrow> r os path_server path fs (Suc n) f
              | Inr (h, fs2) \<Rightarrow>
                  (case file_write fs2 h (copy_chunks 10000000 (file_read_all fs2 pre_file) []) of
                     (h', fs3) \<Rightarrow> Some (h', fs3, Suc n))))) = Some y"
  shows "(\<exists>f'. r os path_server path fs (Suc n) f' = Some y) \<or> copied_to os path_server path fs n y"
proof (cases "fs (path_server n)")
  case (Some c)
  have "r os path_server path fs (Suc n)
          (if \<not> rename_busy os (path_server n) \<and> \<not> open_busy os (path_server n)
           then Some \<lparr>h_name = path_server n, h_pos = 0\<rparr> else f) = Some y"
    using assms Some by (simp add: Let_def os_rename_self_def open_file_def split: if_splits)
  then show ?thesis by blast
next
  case None
  show ?thesis
  proof (cases "fs path")
    case N: None
    have "r os path_server path fs (Suc n) f = Some y"
      using assms None N by (simp add: Let_def open_file_def)
    then show ?thesis by blast
  next
    case (Some bs)
    then have ne: "path \<noteq> path_server n" using None by auto
    show ?thesis
    proof (cases "open_busy os path \<or> open_busy os (path_server n)")
      case True
      have "r os path_server path fs (Suc n) f = Some y"
        using assms None Some True by (auto simp: Let_def open_file_def split: if_splits)
      then show ?thesis by blast
    next
      case False
      have "y = (\<lparr>h_name = path_server n, h_pos = length bs\<rparr>, fs(path_server n \<mapsto> bs), Suc n)"
        using assms None Some ne False
        by (simp add: Let_def open_file_def file_write_def file_read_all_def content_def
              write_at_def copy_chunks_all)
      then show ?thesis using None Some False by (simp add: copied_to_def)
    qed
  qed
qed

lemma relocate_exit:
  assumes "relocate os path_server path fs n f = Some y"
  shows "\<exists>k. n \<le> k \<and> copied_to os path_server path fs k y"
proof (rule relocate.raw_induct
    [where P = "\<lambda>os path_server path fs n f y. \<exists>k. n \<le> k \<and> copied_to os path_server path fs k y",
     OF _ assms], goal_cases)
  case (1 relocate' os path_server path fs n f y)
  from relocate_step [where r = relocate', OF 1(2)] show ?case
  proof
    assume "\<exists>f'. relocate' os path_server path fs (Suc n) f' = Some y"
    then obtain f' where "relocate' os path_server path fs (Suc n) f' = Some y" ..
    from 1(1) [OF this] obtain k where "Suc n \<le> k" "copied_to os path_server path fs k y"
      by blast
    then show ?thesis using Suc_leD by blast
  next
    assume "copied_to os path_server path fs n y"
    then show ?thesis by blast
  qed
qed



text \<open>
  C9. A candidate that exists never ends the loop: whether or not it passes the self-rename
  probe and opens, the next candidate is requested (and \<open>f\<close> is the opened candidate when
  it did). When the loop ends, it ends at a candidate that did not exist, into which the
  original entry has been copied.
\<close>

theorem relocate_never_adopts:
  "(fs (path_server n) \<noteq> None \<longrightarrow>
      relocate os path_server path fs n f
      = relocate os path_server path fs (Suc n)
          (if \<not> rename_busy os (path_server n) \<and> \<not> open_busy os (path_server n)
           then Some \<lparr>h_name = path_server n, h_pos = 0\<rparr> else f))
   \<and> (relocate os path_server path fs n f = Some y \<longrightarrow>
        (\<exists>k. n \<le> k \<and> copied_to os path_server path fs k y))"
  using relocate_existing relocate_exit by blast

lemma relocate_two_files:
  "relocate busy_os three_paths ''a.bin'' two_files 1 None
   = Some (\<lparr>h_name = ''c.bin'', h_pos = 3\<rparr>, two_files(''c.bin'' \<mapsto> [1, 2, 3]), 3)"
  by (simp add: relocate_existing relocate_free two_files_def three_paths_def busy_os_def)

theorem relocate_never_adopts_witness:
  "two_files (three_paths 1) \<noteq> None
   \<and> relocate busy_os three_paths ''a.bin'' two_files 1 None
       = relocate busy_os three_paths ''a.bin'' two_files (Suc 1) (Some \<lparr>h_name = ''b.bin'', h_pos = 0\<rparr>)
   \<and> (\<exists>k. 1 \<le> k \<and> copied_to busy_os three_paths ''a.bin'' two_files k
              (\<lparr>h_name = ''c.bin'', h_pos = 3\<rparr>, two_files(''c.bin'' \<mapsto> [1, 2, 3]), 3))"
proof -
  have e: "two_files (three_paths 1) \<noteq> None"
    by (simp add: two_files_def three_paths_def)
  have c: "(if \<not> rename_busy busy_os (three_paths 1) \<and> \<not> open_busy busy_os (three_paths 1)
            then Some \<lparr>h_name = three_paths 1, h_pos = 0\<rparr> else None)
           = Some \<lparr>h_name = ''b.bin'', h_pos = 0\<rparr>"
    by (simp add: three_paths_def busy_os_def)
  show ?thesis
    using relocate_never_adopts [of two_files three_paths 1 busy_os "''a.bin''" None
            "(\<lparr>h_name = ''c.bin'', h_pos = 3\<rparr>, two_files(''c.bin'' \<mapsto> [1, 2, 3]), 3)"]
          relocate_two_files e
    unfolding c by blast
qed




section \<open>The stages of handle_cached_record\<close>

lemma write_at_end [simp]: "write_at (length c) bs c = c @ bs"
  by (simp add: write_at_def)

lemma write_at_empty [simp]: "write_at 0 bs [] = bs"
  by (simp add: write_at_def)

lemma record_head_not_Nil [simp]: "record_head r \<noteq> []"
  by (simp add: record_head_def)

lemma write_data_eq:
  assumes "fs (h_name f) = Some c" "h_pos f = length c" "0 < chunk"
  shows "write_data disk fs f (Some p) chunk
         = (f\<lparr>h_pos := length c + length (payload_bytes disk p)\<rparr>,
            fs(h_name f \<mapsto> c @ payload_bytes disk p), length (payload_bytes disk p))"
  using assms
  by (cases p)
     (auto simp: write_data_def payload_bytes_def file_write_def content_def copy_chunks_all Let_def)

lemma write_entry_eq:
  assumes a: "a = (entry_wargs M r)\<lparr>file_name := fn, buffered_random := br\<rparr>"
      and sel: "select_target os a fs = Inr (f0, fs0)"
      and enc: "encode_header (record_head r) = Inr hdr"
  shows "write_to_cached_file os a fs
         = Inr (f0\<lparr>h_pos := CACHE_INFO M\<rparr>, None,
                fs0(h_name f0 \<mapsto> hdr @ payload_bytes (fs0(h_name f0 \<mapsto> [])) (rec_o r)))"
proof -
  let ?f1 = "f0\<lparr>h_pos := 0\<rparr>"
  let ?fs1 = "fs0(h_name f0 \<mapsto> [])"
  let ?f2 = "f0\<lparr>h_pos := length hdr\<rparr>"
  let ?fs2 = "fs0(h_name f0 \<mapsto> hdr)"
  have s1: "opt_seek fs0 f0 (Some (0, SEEK_SET)) = Inr ?f1"
    by (simp add: opt_seek_def seek_def)
  have t: "file_truncate fs0 ?f1 = ?fs1"
    by (simp add: file_truncate_def)
  have h: "write_head ?fs1 ?f1 (record_head r) = Inr (?f2, ?fs2, length hdr)"
    by (simp add: write_head_def enc file_write_def content_def)
  have d: "write_data ?fs1 ?fs2 ?f2 (Some (rec_o r)) 1000000
           = (?f2\<lparr>h_pos := length hdr + length (payload_bytes ?fs1 (rec_o r))\<rparr>,
              ?fs2(h_name ?f2 \<mapsto> hdr @ payload_bytes ?fs1 (rec_o r)),
              length (payload_bytes ?fs1 (rec_o r)))"
    by (rule write_data_eq) simp_all
  show ?thesis
    unfolding write_to_cached_file_def sel
    by (simp add: a entry_wargs_def wargs_default_def s1 t h d Let_def opt_seek_def seek_def)
qed

lemma write_entry_fails:
  assumes "encode_header (record_head r) = Inl e"
      and "a = (entry_wargs M r)\<lparr>file_name := fn, buffered_random := br\<rparr>"
  shows "\<exists>e'. write_to_cached_file os a fs = Inl e'"
  using assms
  by (auto simp: write_to_cached_file_def entry_wargs_def wargs_default_def opt_seek_def seek_def
        write_head_def Let_def split: sum.splits prod.splits)

lemma encode_header_decodes:
  assumes "encode_header [a, b, c, d] = Inr hdr"
  shows "length hdr = 32 \<and> decode_header hdr = Inr (a, b, c, d)"
proof -
  have rng: "\<forall>v \<in> set [a, b, c, d]. 0 \<le> v \<and> v < 2 ^ 64"
    using assms by (simp add: encode_header_def np_asarray_u8_def split: if_splits)
  show ?thesis
    using encode_header4 [OF rng] decode_header4 [OF rng] assms by simp
qed

lemma length_chunks:
  "0 < n \<Longrightarrow> length xs mod n = 0 \<Longrightarrow> length (chunks n xs) = length xs div n"
proof (induction "length xs" arbitrary: xs rule: less_induct)
  case less
  show ?case
  proof (cases "xs = []")
    case True
    then show ?thesis by simp
  next
    case False
    have dv: "n dvd length xs" using less.prems(2) by (simp add: dvd_eq_mod_eq_0)
    then have n: "n \<le> length xs" using False by (auto intro: dvd_imp_le)
    have "n dvd length xs - n" using dv by (simp add: dvd_diff_nat)
    then have m: "length (drop n xs) mod n = 0" by (simp add: dvd_eq_mod_eq_0)
    have lt: "length (drop n xs) < length xs" using less.prems(1) False by simp
    have "length (chunks n xs) = Suc (length (chunks n (drop n xs)))"
      using less.prems(1) False by (simp add: chunks_step)
    also have "\<dots> = Suc ((length xs - n) div n)"
      using less.hyps [OF lt less.prems(1) m] by simp
    also have "\<dots> = length xs div n"
      using n less.prems(1) by (simp add: le_div_geq)
    finally show ?thesis .
  qed
qed

lemma unpack4_ok: "(\<exists>h. unpack4 vs = Inr h) \<longleftrightarrow> length vs = 4"
proof
  assume "\<exists>h. unpack4 vs = Inr h"
  then show "length vs = 4"
    by (auto simp: unpack4_def split: list.splits)
next
  assume "length vs = 4"
  then obtain a b c d where "vs = [a, b, c, d]"
    by (auto simp: length_Suc_conv numeral_eq_Suc)
  then show "\<exists>h. unpack4 vs = Inr h" by (simp add: unpack4_def)
qed

lemma decode_header_error: "decode_header b = Inl e \<Longrightarrow> e = ValueError"
  by (auto simp: decode_header_def np_frombuffer_u8_def unpack4_def
        split: if_splits list.splits)

lemma decode_header_ok: "(\<exists>h. decode_header b = Inr h) \<longleftrightarrow> length b = 32"
proof (cases "length b mod 8 = 0")
  case False
  then have "length b \<noteq> 32" by auto
  then show ?thesis using False by (simp add: decode_header_def np_frombuffer_u8_def)
next
  case True
  have len: "length (chunks 8 b) = length b div 8"
    by (rule length_chunks) (simp_all add: True)
  have "(\<exists>h. decode_header b = Inr h)
        \<longleftrightarrow> (\<exists>h. unpack4 (map (\<lambda>c. int (le_value c)) (chunks 8 b)) = Inr h)"
    using True by (simp add: decode_header_def np_frombuffer_u8_def)
  also have "\<dots> \<longleftrightarrow> length b div 8 = 4"
    using unpack4_ok [of "map (\<lambda>c. int (le_value c)) (chunks 8 b)"] len
    by (simp only: length_map)
  also have "\<dots> \<longleftrightarrow> length b = 32"
    using True by auto
  finally show ?thesis .
qed

lemma decode_header_fails: "decode_header b = Inl ValueError \<longleftrightarrow> length b \<noteq> 32"
proof -
  have "decode_header b = Inl ValueError \<longleftrightarrow> \<not> (\<exists>h. decode_header b = Inr h)"
    using decode_header_error [of b] by (cases "decode_header b") auto
  then show ?thesis using decode_header_ok [of b] by blast
qed

lemma validate_eq:
  "validate A os M rec f fs sf sn sr safe
   = (case decode_header (take (CACHE_INFO M) (content fs f)) of
        Inl e \<Rightarrow>
          Miss (rec\<lparr>rec_o := Stream (f\<lparr>h_pos := length (take (CACHE_INFO M) (content fs f))\<rparr>)\<rparr>)
               (fs(h_name f := None))
      | Inr hdr \<Rightarrow>
          reconcile A os M rec (f\<lparr>h_pos := length (take (CACHE_INFO M) (content fs f))\<rparr>) fs hdr
            sf sn sr safe)"
  by (simp add: validate_def seek_def file_read_def content_def Let_def split: sum.splits)

lemma finish_keeps:
  assumes "finish A M r f = Inr r'"
  shows "rec_size r' = rec_size r \<and> sampleFormat r' = sampleFormat r \<and> frameRate r' = frameRate r
         \<and> nchannels r' = nchannels r \<and> rec_o r' = rec_o r"
  using assms by (auto simp: finish_def Let_def split: option.splits if_splits)

lemma synchronize_result:
  assumes "synchronize_audio A r n sr sf = Inr r2"
  shows "\<exists>out. rec_o r2 = Bytes out \<and> rec_size r2 = int (length out) \<and> sampleFormat r2 = sf
           \<and> nchannels r2 = n \<and> frameRate r2 = sr"
  using assms unfolding synchronize_audio_def
  by (auto simp: Let_def split: sum.splits prod.splits if_splits)

lemma write_select_fails:
  "select_target os a fs = Inl e \<Longrightarrow> write_to_cached_file os a fs = Inl e"
  by (simp add: write_to_cached_file_def)

lemma write_entry_handle:
  assumes "encode_header (record_head r) = Inr hdr"
  shows "write_to_cached_file os ((entry_wargs M r)\<lparr>buffered_random := Some f\<rparr>) fs
         = Inr (f\<lparr>h_pos := CACHE_INFO M\<rparr>, None,
                fs(h_name f \<mapsto> hdr @ payload_bytes (fs(h_name f \<mapsto> [])) (rec_o r)))"
proof -
  have a: "(entry_wargs M r)\<lparr>buffered_random := Some f\<rparr>
           = (entry_wargs M r)\<lparr>file_name := None, buffered_random := Some f\<rparr>"
    by (simp add: entry_wargs_def wargs_default_def)
  have sel: "select_target os ((entry_wargs M r)\<lparr>buffered_random := Some f\<rparr>) fs = Inr (f, fs)"
    by (simp add: select_target_def)
  show ?thesis by (rule write_entry_eq [OF a sel assms])
qed

lemma write_entry_path:
  assumes enc: "encode_header (record_head r) = Inr hdr"
      and path: "path \<noteq> []" "\<not> open_busy os path"
  shows "write_to_cached_file os ((entry_wargs M r)\<lparr>file_name := Some path\<rparr>) fs
         = Inr (\<lparr>h_name = path, h_pos = CACHE_INFO M\<rparr>, None,
                fs(path \<mapsto> hdr @ payload_bytes (fs(path \<mapsto> [])) (rec_o r)))"
proof -
  have a: "(entry_wargs M r)\<lparr>file_name := Some path\<rparr>
           = (entry_wargs M r)\<lparr>file_name := Some path, buffered_random := None\<rparr>"
    by (simp add: entry_wargs_def wargs_default_def)
  have sel: "select_target os ((entry_wargs M r)\<lparr>file_name := Some path\<rparr>) fs
             = Inr (\<lparr>h_name = path, h_pos = 0\<rparr>, fs(path \<mapsto> []))"
    using path by (simp add: select_target_def open_file_def entry_wargs_def wargs_default_def)
  show ?thesis using write_entry_eq [OF a sel enc] by simp
qed

lemma write_entry_handle_result:
  assumes "write_to_cached_file os ((entry_wargs M r)\<lparr>buffered_random := Some f\<rparr>) fs = Inr (f', n, fs')"
  shows "\<exists>hdr. encode_header (record_head r) = Inr hdr \<and> f' = f\<lparr>h_pos := CACHE_INFO M\<rparr>
           \<and> fs' = fs(h_name f \<mapsto> hdr @ payload_bytes (fs(h_name f \<mapsto> [])) (rec_o r))"
proof (cases "encode_header (record_head r)")
  case (Inl e)
  have a: "(entry_wargs M r)\<lparr>buffered_random := Some f\<rparr>
           = (entry_wargs M r)\<lparr>file_name := None, buffered_random := Some f\<rparr>"
    by (simp add: entry_wargs_def wargs_default_def)
  from write_entry_fails [OF Inl a, of os fs] assms show ?thesis by auto
next
  case (Inr hdr)
  from write_entry_handle [OF Inr, where os = os and M = M and f = f and fs = fs] assms Inr
  show ?thesis by simp
qed

lemma write_entry_path_result:
  assumes "write_to_cached_file os ((entry_wargs M r)\<lparr>file_name := Some path\<rparr>) fs = Inr (f', n, fs')"
  shows "\<exists>hdr. encode_header (record_head r) = Inr hdr \<and> f' = \<lparr>h_name = path, h_pos = CACHE_INFO M\<rparr>
           \<and> fs' = fs(path \<mapsto> hdr @ payload_bytes (fs(path \<mapsto> [])) (rec_o r))"
proof (cases "encode_header (record_head r)")
  case (Inl e)
  have a: "(entry_wargs M r)\<lparr>file_name := Some path\<rparr>
           = (entry_wargs M r)\<lparr>file_name := Some path, buffered_random := None\<rparr>"
    by (simp add: entry_wargs_def wargs_default_def)
  from write_entry_fails [OF Inl a, of os fs] assms show ?thesis by auto
next
  case (Inr hdr)
  have ok: "path \<noteq> [] \<and> \<not> open_busy os path"
  proof (rule ccontr)
    assume "\<not> (path \<noteq> [] \<and> \<not> open_busy os path)"
    then have "select_target os ((entry_wargs M r)\<lparr>file_name := Some path\<rparr>) fs = Inl ValueError
             \<or> select_target os ((entry_wargs M r)\<lparr>file_name := Some path\<rparr>) fs = Inl OSError"
      by (auto simp: select_target_def open_file_def entry_wargs_def wargs_default_def)
    then show False using assms write_select_fails by fastforce
  qed
  from write_entry_path [OF Inr, where path = path and os = os and M = M and fs = fs] ok assms Inr
  show ?thesis by simp
qed

lemma payload_bytes_Bytes [simp]: "payload_bytes fs (Bytes d) = d"
  by (simp add: payload_bytes_def)

lemma record_head_rec_o [simp]: "record_head (r\<lparr>rec_o := p\<rparr>) = record_head r"
  by (simp add: record_head_def)

lemma rebuild_bytes:
  assumes dec: "decoder = Some (Bytes d)"
      and path: "path \<noteq> []" "\<not> open_busy os path"
      and enc: "encode_header [int (length d + CACHE_INFO M), frameRate rec,
                  format_or_zero (sampleFormat rec), nchannels rec] = Inr hdr"
  shows "rebuild os M path decoder rec fs
         = Inr (rec\<lparr>rec_o := Stream \<lparr>h_name = path, h_pos = CACHE_INFO M\<rparr>,
                     rec_size := int (length d + CACHE_INFO M)\<rparr>,
                \<lparr>h_name = path, h_pos = CACHE_INFO M\<rparr>, fs(path \<mapsto> hdr @ d))"
proof -
  let ?r2 = "rec\<lparr>rec_o := Bytes d, rec_size := int (length d) + int (CACHE_INFO M)\<rparr>"
  have e: "encode_header (record_head ?r2) = Inr hdr"
    using enc by (simp add: record_head_def)
  show ?thesis
    unfolding rebuild_def dec
    by (simp add: Let_def write_entry_path [OF e path])
qed

lemma rebuild_result:
  assumes "rebuild os M path decoder rec fs = Inr (r2, f, fs2)"
  shows "\<exists>hdr rest. encode_header (record_head r2) = Inr hdr
           \<and> f = \<lparr>h_name = path, h_pos = CACHE_INFO M\<rparr> \<and> rec_o r2 = Stream f
           \<and> frameRate r2 = frameRate rec \<and> nchannels r2 = nchannels rec
           \<and> sampleFormat r2 = sampleFormat rec
           \<and> fs2 = fs(path \<mapsto> hdr @ rest)
           \<and> (case (case decoder of None \<Rightarrow> rec_o rec | Some d \<Rightarrow> d) of
                 Bytes d \<Rightarrow> rest = d \<and> rec_size r2 = int (length d + CACHE_INFO M)
               | Stream h \<Rightarrow> (\<exists>store. fs (h_name h) = Some store \<and> rec_size r2 = int (length store)))"
proof -
  let ?r1 = "case decoder of None \<Rightarrow> rec | Some d \<Rightarrow> rec\<lparr>rec_o := d\<rparr>"
  have p: "rec_o ?r1 = (case decoder of None \<Rightarrow> rec_o rec | Some d \<Rightarrow> d)"
    by (simp split: option.splits)
  have k: "frameRate ?r1 = frameRate rec \<and> nchannels ?r1 = nchannels rec
           \<and> sampleFormat ?r1 = sampleFormat rec"
    by (simp split: option.splits)
  obtain sz where sz: "(case rec_o ?r1 of
              Stream h \<Rightarrow>
                (case fs (h_name h) of None \<Rightarrow> Inl OSError | Some bs \<Rightarrow> Inr (int (length bs)))
            | Bytes bs \<Rightarrow> Inr (int (length bs + CACHE_INFO M))) = Inr sz"
    using assms unfolding rebuild_def Let_def by (auto split: sum.splits)
  obtain n where w: "write_to_cached_file os ((entry_wargs M (?r1\<lparr>rec_size := sz\<rparr>))\<lparr>file_name := Some path\<rparr>) fs
                 = Inr (f, n, fs2)" and r2: "r2 = ?r1\<lparr>rec_size := sz, rec_o := Stream f\<rparr>"
    using assms sz unfolding rebuild_def Let_def by (auto split: sum.splits)
  from write_entry_path_result [OF w] obtain hdr where
    h: "encode_header (record_head (?r1\<lparr>rec_size := sz\<rparr>)) = Inr hdr"
       "f = \<lparr>h_name = path, h_pos = CACHE_INFO M\<rparr>"
       "fs2 = fs(path \<mapsto> hdr @ payload_bytes (fs(path \<mapsto> [])) (rec_o (?r1\<lparr>rec_size := sz\<rparr>)))"
    by blast
  have size: "case rec_o ?r1 of
                 Bytes d \<Rightarrow> payload_bytes (fs(path \<mapsto> [])) (rec_o ?r1) = d
                              \<and> sz = int (length d + CACHE_INFO M)
               | Stream h \<Rightarrow> (\<exists>store. fs (h_name h) = Some store \<and> sz = int (length store))"
    using sz by (auto split: payload.splits option.splits)
  show ?thesis
    apply (rule exI [of _ hdr])
    apply (rule exI [of _ "payload_bytes (fs(path \<mapsto> [])) (rec_o ?r1)"])
    using h size k unfolding r2 p [symmetric]
    by (auto simp: record_head_def split: payload.splits)
qed

section \<open>The whole call\<close>

lemma locate_direct:
  assumes "path_server 0 \<in> set cache" "fs (path_server 0) = Some bs"
      and "\<not> rename_busy os (path_server 0)" "\<not> open_busy os (path_server 0)"
  shows "locate os path_server cache fs = Some (Inr (\<lparr>h_name = path_server 0, h_pos = 0\<rparr>, fs))"
  using assms by (simp add: locate_def Let_def os_rename_self_def open_file_def)

lemma locate_not_cached:
  "path_server 0 \<notin> set cache \<Longrightarrow> locate os path_server cache fs = Some (Inl DecodeError)"
  by (simp add: locate_def Let_def)

lemma locate_cached:
  assumes "path_server 0 \<in> set cache" "locate os path_server cache fs = Some x"
  shows "\<exists>f fs1. x = Inr (f, fs1)"
  using assms
  by (auto simp: locate_def Let_def split: sum.splits prod.splits dest: sym)

lemma finish_ok:
  assumes "get_sample_size A (sampleFormat r) = Some w"
      and "frameRate r * nchannels r * int w \<noteq> 0"
      and "is_series r \<longrightarrow> str_index (BUFFER_TYPE M) (h_name f) \<noteq> None"
  shows "\<exists>r'. finish A M r f = Inr r'"
  using assms by (auto simp: finish_def Let_def split: option.splits)

lemma reconcile_result:
  assumes "reconcile A os M rec f fs (a, b, c, d) sf sn sr safe = Hit r f' fs'"
  shows "(r = rec\<lparr>rec_o := Stream f, rec_size := a, frameRate := b, nchannels := d,
                  sampleFormat := (if c \<noteq> 0 then Some c else None)\<rparr> \<and> f' = f \<and> fs' = fs)
       \<or> (safe \<and> (\<exists>out hdr. rec_size r = int (length out) \<and> sampleFormat r = sf
              \<and> nchannels r = sn \<and> frameRate r = sr
              \<and> encode_header (record_head r) = Inr hdr \<and> f' = f\<lparr>h_pos := CACHE_INFO M\<rparr>
              \<and> rec_o r = Stream f' \<and> fs' = fs(h_name f \<mapsto> hdr @ out)))"
proof -
  let ?csf = "if c \<noteq> 0 then Some c else None"
  let ?rec1 = "rec\<lparr>rec_o := Stream f, rec_size := a, frameRate := b, nchannels := d,
                  sampleFormat := ?csf\<rparr>"
  show ?thesis
  proof (cases "(d = sn \<and> ?csf = sf \<and> b = sr) \<or> \<not> safe")
    case True
    then have "reconcile A os M rec f fs (a, b, c, d) sf sn sr safe = Hit ?rec1 f fs"
      by (auto simp: reconcile_def Let_def)
    then show ?thesis using assms by simp
  next
    case False
    then have safe: safe by simp
    let ?in = "?rec1\<lparr>rec_o := Bytes (file_read_all fs f)\<rparr>"
    have unf: "reconcile A os M rec f fs (a, b, c, d) sf sn sr safe
        = (case synchronize_audio A ?in sn sr sf of
                Inl e \<Rightarrow> Raised e
              | Inr rec2 \<Rightarrow>
                  (case write_to_cached_file os ((entry_wargs M rec2)\<lparr>buffered_random := Some f\<rparr>) fs of
                     Inl e \<Rightarrow> Raised e
                   | Inr (f', n, fs') \<Rightarrow> Hit (rec2\<lparr>rec_o := Stream f'\<rparr>) f' fs'))"
      using False by (auto simp: reconcile_def Let_def)
    obtain r2 where s: "synchronize_audio A ?in sn sr sf = Inr r2"
      using assms unfolding unf by (cases "synchronize_audio A ?in sn sr sf") auto
    obtain n where w: "write_to_cached_file os ((entry_wargs M r2)\<lparr>buffered_random := Some f\<rparr>) fs
                       = Inr (f', n, fs')" and r: "r = r2\<lparr>rec_o := Stream f'\<rparr>"
      using assms unfolding unf s
      by (cases "write_to_cached_file os ((entry_wargs M r2)\<lparr>buffered_random := Some f\<rparr>) fs") auto
    from synchronize_result [OF s] obtain out where
      o: "rec_o r2 = Bytes out" "rec_size r2 = int (length out)" "sampleFormat r2 = sf"
         "nchannels r2 = sn" "frameRate r2 = sr"
      by blast
    from write_entry_handle_result [OF w] obtain hdr where
      h: "encode_header (record_head r2) = Inr hdr" "f' = f\<lparr>h_pos := CACHE_INFO M\<rparr>"
         "fs' = fs(h_name f \<mapsto> hdr @ payload_bytes (fs(h_name f \<mapsto> [])) (rec_o r2))"
      by blast
    have "rec_size r = int (length out) \<and> sampleFormat r = sf \<and> nchannels r = sn \<and> frameRate r = sr
          \<and> encode_header (record_head r) = Inr hdr \<and> f' = f\<lparr>h_pos := CACHE_INFO M\<rparr>
          \<and> rec_o r = Stream f' \<and> fs' = fs(h_name f \<mapsto> hdr @ out)"
      using o h unfolding r by simp
    then show ?thesis using safe by blast
  qed
qed

lemma reconcile_not_Miss: "reconcile A os M rec f fs hdr sf sn sr safe \<noteq> Miss r1 fs1"
  by (auto simp: reconcile_def Let_def split: prod.splits sum.splits)

lemma locate_Inl:
  assumes "locate os path_server cache fs = Some (Inl e)"
  shows "path_server 0 \<notin> set cache \<and> e = DecodeError"
proof (cases "path_server 0 \<in> set cache")
  case True
  from locate_cached [OF True assms] show ?thesis by simp
next
  case False
  then show ?thesis using assms by (simp add: locate_not_cached)
qed

lemma try_block_Hit:
  assumes "try_block A os M path_server rec fs sf sn sr safe = Some (Hit rec1 f fs')"
  shows "\<exists>f0 fs0 a b c d. locate os path_server (m_cache M) fs = Some (Inr (f0, fs0))
           \<and> decode_header (take (CACHE_INFO M) (content fs0 f0)) = Inr (a, b, c, d)
           \<and> reconcile A os M rec (f0\<lparr>h_pos := length (take (CACHE_INFO M) (content fs0 f0))\<rparr>) fs0
                 (a, b, c, d) sf sn sr safe = Hit rec1 f fs'"
proof (cases "locate os path_server (m_cache M) fs")
  case None
  then show ?thesis using assms by (simp add: try_block_def)
next
  case (Some x)
  show ?thesis
  proof (cases x)
    case (Inl e)
    then show ?thesis using assms Some by (simp add: try_block_def split: if_splits)
  next
    case (Inr y)
    obtain f0 fs0 where y: "y = (f0, fs0)" by (cases y)
    have v: "validate A os M rec f0 fs0 sf sn sr safe = Hit rec1 f fs'"
      using assms Some Inr y by (simp add: try_block_def)
    show ?thesis
    proof (cases "decode_header (take (CACHE_INFO M) (content fs0 f0))")
      case (Inl e)
      then show ?thesis using v by (simp add: validate_eq)
    next
      case hdr: (Inr h)
      obtain a b c d where h: "h = (a, b, c, d)" by (cases h)
      show ?thesis using v hdr h Some Inr y by (simp add: validate_eq)
    qed
  qed
qed

lemma try_block_Miss:
  assumes "try_block A os M path_server rec fs sf sn sr safe = Some (Miss rec1 fs1)"
  shows "(path_server 0 \<notin> set (m_cache M) \<and> rec1 = rec \<and> fs1 = fs)
       \<or> (\<exists>f0 fs0. locate os path_server (m_cache M) fs = Some (Inr (f0, fs0))
             \<and> decode_header (take (CACHE_INFO M) (content fs0 f0)) = Inl ValueError
             \<and> rec1 = rec\<lparr>rec_o := Stream (f0\<lparr>h_pos := length (take (CACHE_INFO M) (content fs0 f0))\<rparr>)\<rparr>
             \<and> fs1 = fs0(h_name f0 := None))"
proof (cases "locate os path_server (m_cache M) fs")
  case None
  then show ?thesis using assms by (simp add: try_block_def)
next
  case (Some x)
  show ?thesis
  proof (cases x)
    case (Inl e)
    from locate_Inl [OF Some [unfolded Inl]] assms Some Inl show ?thesis
      by (simp add: try_block_def)
  next
    case (Inr y)
    obtain f0 fs0 where y: "y = (f0, fs0)" by (cases y)
    have v: "validate A os M rec f0 fs0 sf sn sr safe = Miss rec1 fs1"
      using assms Some Inr y by (simp add: try_block_def)
    show ?thesis
    proof (cases "decode_header (take (CACHE_INFO M) (content fs0 f0))")
      case (Inl e)
      then have "e = ValueError" by (rule decode_header_error)
      then show ?thesis using v Inl Some Inr y by (auto simp: validate_eq)
    next
      case hdr: (Inr h)
      then show ?thesis using v reconcile_not_Miss by (simp add: validate_eq)
    qed
  qed
qed

lemma handle_returns:
  assumes "handle_cached_record A os rec path_server M decoder ssf ssn ssr safe fs = Some (Inr (r, fs'))"
  shows "(\<exists>rec1 f. try_block A os M path_server rec fs
                      (case ssf of None \<Rightarrow> m_sample_format M | Some v \<Rightarrow> Some v)
                      (case ssn of None \<Rightarrow> m_nchannels M | Some v \<Rightarrow> v)
                      (case ssr of None \<Rightarrow> m_sample_rate M | Some v \<Rightarrow> v) safe
                    = Some (Hit rec1 f fs') \<and> finish A M rec1 f = Inr r)
       \<or> (\<exists>rec1 fs1 rec2 f. try_block A os M path_server rec fs
                      (case ssf of None \<Rightarrow> m_sample_format M | Some v \<Rightarrow> Some v)
                      (case ssn of None \<Rightarrow> m_nchannels M | Some v \<Rightarrow> v)
                      (case ssr of None \<Rightarrow> m_sample_rate M | Some v \<Rightarrow> v) safe
                    = Some (Miss rec1 fs1)
             \<and> rebuild os M (path_server 0) decoder rec1 fs1 = Inr (rec2, f, fs')
             \<and> finish A M rec2 f = Inr r)"
  using assms unfolding handle_cached_record_def Let_def
  by (auto split: option.splits outcome.splits sum.splits prod.splits)

lemma handle_Miss:
  assumes "try_block A os M path_server rec fs
                      (case ssf of None \<Rightarrow> m_sample_format M | Some v \<Rightarrow> Some v)
                      (case ssn of None \<Rightarrow> m_nchannels M | Some v \<Rightarrow> v)
                      (case ssr of None \<Rightarrow> m_sample_rate M | Some v \<Rightarrow> v) safe
           = Some (Miss rec1 fs1)"
      and "rebuild os M (path_server 0) decoder rec1 fs1 = Inr (rec2, f, fs2)"
      and "finish A M rec2 f = Inr r"
  shows "handle_cached_record A os rec path_server M decoder ssf ssn ssr safe fs = Some (Inr (r, fs2))"
  using assms unfolding handle_cached_record_def Let_def by simp

lemma handle_Hit:
  assumes "try_block A os M path_server rec fs
                      (case ssf of None \<Rightarrow> m_sample_format M | Some v \<Rightarrow> Some v)
                      (case ssn of None \<Rightarrow> m_nchannels M | Some v \<Rightarrow> v)
                      (case ssr of None \<Rightarrow> m_sample_rate M | Some v \<Rightarrow> v) safe
           = Some (Hit rec1 f fs1)"
      and "finish A M rec1 f = Inr r"
  shows "handle_cached_record A os rec path_server M decoder ssf ssn ssr safe fs = Some (Inr (r, fs1))"
  using assms unfolding handle_cached_record_def Let_def by simp

lemma record_head_finish:
  "finish A M r f = Inr r' \<Longrightarrow> record_head r' = record_head r"
  using finish_keeps [of A M r f r'] by (simp add: record_head_def)

lemma reconcile_reuse:
  assumes "(d = sn \<and> (if c \<noteq> 0 then Some c else None) = sf \<and> b = sr) \<or> \<not> safe"
  shows "reconcile A os M rec f fs (a, b, c, d) sf sn sr safe
         = Hit (rec\<lparr>rec_o := Stream f, rec_size := a, frameRate := b, nchannels := d,
                     sampleFormat := (if c \<noteq> 0 then Some c else None)\<rparr>) f fs"
  using assms by (auto simp: reconcile_def Let_def)

end
